theory Spec2Isabelle
  imports Complex_Main "HOL-Library.Multiset"
begin

section \<open>Errors\<close>

text \<open>
  A function that may raise returns \<open>error + 'a\<close>, with \<open>Inl\<close> for the exception.
  The \<^verbatim>\<open>isinstance\<close> checks of the source, which raise \<^verbatim>\<open>TypeError\<close>, are enforced
  by the types of the embedding and have no branch here; \<^verbatim>\<open>TypeError\<close> remains for
  a call with the wrong number of arguments.

  Python floats are modelled as \<open>real\<close> numbers and Python integers as \<open>int\<close>.
\<close>

datatype error = ValueError | TypeError

section \<open>Strings\<close>

text \<open>
  Strings are lists of 8-bit characters, read as code points below 256. All strings
  that occur below are ASCII: the tokens written by \<^verbatim>\<open>Card.__str__\<close> and the
  literals of the range tables. \<^verbatim>\<open>str.upper\<close> and \<^verbatim>\<open>str.lower\<close> are modelled on
  the ASCII letters, \<^verbatim>\<open>str.strip\<close> on the white space below code point 256.
\<close>

definition py_isspace :: "char \<Rightarrow> bool" where
  "py_isspace c = ((of_char c :: nat) \<in> {9, 10, 11, 12, 13, 28, 29, 30, 31, 32, 133, 160})"

definition upper_char :: "char \<Rightarrow> char" where
  "upper_char c = (let n = (of_char c :: nat) in if 97 \<le> n \<and> n \<le> 122 then char_of (n - 32) else c)"

definition lower_char :: "char \<Rightarrow> char" where
  "lower_char c = (let n = (of_char c :: nat) in if 65 \<le> n \<and> n \<le> 90 then char_of (n + 32) else c)"

definition upper :: "string \<Rightarrow> string" where
  "upper s = map upper_char s"

definition lower :: "string \<Rightarrow> string" where
  "lower s = map lower_char s"

definition strip :: "string \<Rightarrow> string" where
  "strip s = rev (dropWhile py_isspace (rev (dropWhile py_isspace s)))"

definition is_digit :: "char \<Rightarrow> bool" where
  "is_digit c = (let n = (of_char c :: nat) in 48 \<le> n \<and> n \<le> 57)"

definition digit_val :: "char \<Rightarrow> nat" where
  "digit_val c = (of_char c :: nat) - 48"

text \<open>
  \<^verbatim>\<open>int(s)\<close> on a stripped string: an optional sign, then decimal digits, with
  single underscores allowed between two digits. \<open>parse_digits\<close> runs after a digit
  has been read.
\<close>

fun parse_digits :: "string \<Rightarrow> nat \<Rightarrow> nat option" where
  "parse_digits [] acc = Some acc"
| "parse_digits (c # cs) acc =
     (if is_digit c then parse_digits cs (10 * acc + digit_val c)
      else if c = CHR ''_'' then
        (case cs of
           [] \<Rightarrow> None
         | d # ds \<Rightarrow> if is_digit d then parse_digits ds (10 * acc + digit_val d) else None)
      else None)"

definition py_int :: "string \<Rightarrow> error + int" where
  "py_int s =
     (let (neg, body) =
        (case s of
           [] \<Rightarrow> (False, [])
         | c # cs \<Rightarrow> if c = CHR ''-'' then (True, cs)
                     else if c = CHR ''+'' then (False, cs) else (False, s))
      in case body of
           [] \<Rightarrow> Inl ValueError
         | d # ds \<Rightarrow>
             if is_digit d then
               (case parse_digits ds (digit_val d) of
                  None \<Rightarrow> Inl ValueError
                | Some n \<Rightarrow> Inr (if neg then - int n else int n))
             else Inl ValueError)"

section \<open>Cards (card.py)\<close>

datatype suit = SPADES | HEARTS | DIAMONDS | CLUBS

datatype rank = TWO | THREE | FOUR | FIVE | SIX | SEVEN | EIGHT | NINE | TEN
  | JACK | QUEEN | KING | ACE

datatype card = Card (rank: rank) (suit: suit)

definition all_suits :: "suit list" where
  "all_suits = [SPADES, HEARTS, DIAMONDS, CLUBS]"

definition all_ranks :: "rank list" where
  "all_ranks = [TWO, THREE, FOUR, FIVE, SIX, SEVEN, EIGHT, NINE, TEN, JACK, QUEEN, KING, ACE]"

text \<open>The numeric value of a rank (\<^verbatim>\<open>IntEnum\<close>), used for comparisons.\<close>

fun rank_value :: "rank \<Rightarrow> int" where
  "rank_value TWO = 2"
| "rank_value THREE = 3"
| "rank_value FOUR = 4"
| "rank_value FIVE = 5"
| "rank_value SIX = 6"
| "rank_value SEVEN = 7"
| "rank_value EIGHT = 8"
| "rank_value NINE = 9"
| "rank_value TEN = 10"
| "rank_value JACK = 11"
| "rank_value QUEEN = 12"
| "rank_value KING = 13"
| "rank_value ACE = 14"

text \<open>\<^verbatim>\<open>_SUIT_SHORT_NAMES\<close> and \<^verbatim>\<open>_RANK_DISPLAY\<close>.\<close>

fun suit_short_name :: "suit \<Rightarrow> string" where
  "suit_short_name SPADES = ''s''"
| "suit_short_name HEARTS = ''h''"
| "suit_short_name DIAMONDS = ''d''"
| "suit_short_name CLUBS = ''c''"

fun rank_short_name :: "rank \<Rightarrow> string" where
  "rank_short_name TWO = ''2''"
| "rank_short_name THREE = ''3''"
| "rank_short_name FOUR = ''4''"
| "rank_short_name FIVE = ''5''"
| "rank_short_name SIX = ''6''"
| "rank_short_name SEVEN = ''7''"
| "rank_short_name EIGHT = ''8''"
| "rank_short_name NINE = ''9''"
| "rank_short_name TEN = ''T''"
| "rank_short_name JACK = ''J''"
| "rank_short_name QUEEN = ''Q''"
| "rank_short_name KING = ''K''"
| "rank_short_name ACE = ''A''"

text \<open>\<^verbatim>\<open>Card.__str__\<close>: the two-character token such as \<^verbatim>\<open>As\<close> or \<^verbatim>\<open>Td\<close>.\<close>

definition card_str :: "card \<Rightarrow> string" where
  "card_str c = rank_short_name (rank c) @ suit_short_name (suit c)"

text \<open>
  \<^verbatim>\<open>Suit.from_string\<close>. The loop compares the normalised text with the symbol and
  with the short name of each suit in turn. The four symbols are code points above
  255, which no string of this model contains, so only the short names can match.
\<close>

fun suit_scan :: "string \<Rightarrow> suit list \<Rightarrow> error + suit" where
  "suit_scan normalized [] = Inl ValueError"
| "suit_scan normalized (s # ss) =
     (if normalized = suit_short_name s then Inr s else suit_scan normalized ss)"

definition suit_from_string :: "string \<Rightarrow> error + suit" where
  "suit_from_string v =
     (let normalized = lower (strip v)
      in if normalized = [] then Inl ValueError else suit_scan normalized all_suits)"

text \<open>\<^verbatim>\<open>Rank(numeric)\<close>: the enum member with that value, or \<^verbatim>\<open>ValueError\<close>.\<close>

definition rank_of_int :: "int \<Rightarrow> error + rank" where
  "rank_of_int n =
     (case filter (\<lambda>r. rank_value r = n) all_ranks of
        [] \<Rightarrow> Inl ValueError
      | r # _ \<Rightarrow> Inr r)"

text \<open>\<^verbatim>\<open>Rank.from_string\<close>: the display characters first, then a number.\<close>

definition rank_from_string :: "string \<Rightarrow> error + rank" where
  "rank_from_string v =
     (let normalized = upper (strip v)
      in if normalized = [] then Inl ValueError
         else
           (case map_of (map (\<lambda>r. (rank_short_name r, r)) all_ranks) normalized of
              Some r \<Rightarrow> Inr r
            | None \<Rightarrow>
                (case py_int normalized of
                   Inl e \<Rightarrow> Inl e
                 | Inr numeric \<Rightarrow> rank_of_int numeric)))"

text \<open>\<^verbatim>\<open>Card.from_string\<close>: the last character is the suit, the rest the rank.\<close>

definition card_from_string :: "string \<Rightarrow> error + card" where
  "card_from_string card_str0 =
     (if card_str0 = [] then Inl ValueError
      else
        (let stripped = strip card_str0
         in if length stripped < 2 then Inl ValueError
            else
              (case rank_from_string (butlast stripped) of
                 Inl e \<Rightarrow> Inl e
               | Inr r \<Rightarrow>
                   (case suit_from_string [last stripped] of
                      Inl e \<Rightarrow> Inl e
                    | Inr s \<Rightarrow> Inr (Card r s)))))"

section \<open>Game state enumerations (game_state.py)\<close>

datatype position = UTG | MP | CO | BTN | SB | BB

datatype street = PREFLOP | FLOP | TURN | RIVER

section \<open>Preflop ranges (ranges.py)\<close>

definition UTG_OPENING :: "string set" where
  "UTG_OPENING = {''AA'', ''KK'', ''QQ'', ''JJ'', ''TT'', ''99'', ''AKs'', ''AQs'', ''AJs'',
     ''ATs'', ''AKo'', ''AQo'', ''KQs''}"

definition MP_ADDITIONS :: "string set" where
  "MP_ADDITIONS = {''88'', ''77'', ''A9s'', ''A8s'', ''AJo'', ''KJs'', ''KTs'', ''QJs''}"

definition CO_ADDITIONS :: "string set" where
  "CO_ADDITIONS = {''66'', ''55'', ''ATo'', ''KQo'', ''QTs'', ''JTs'', ''T9s'', ''A7s'', ''A6s'',
     ''A5s'', ''A4s'', ''A3s'', ''A2s''}"

definition ALL_PAIRS :: "string set" where
  "ALL_PAIRS = {''AA'', ''KK'', ''QQ'', ''JJ'', ''TT'', ''99'', ''88'', ''77'', ''66'', ''55'',
     ''44'', ''33'', ''22''}"

definition BROADWAY_SUITS :: "string set" where
  "BROADWAY_SUITS = {''AKs'', ''AQs'', ''AJs'', ''ATs'', ''KQs'', ''KJs'', ''QJs'', ''JTs'',
     ''KTs'', ''QTs'', ''J9s'', ''T9s'', ''98s'', ''87s'', ''76s'', ''65s'', ''54s''}"

definition BROADWAY_OFFSUIT :: "string set" where
  "BROADWAY_OFFSUIT = {''AKo'', ''AQo'', ''AJo'', ''ATo'', ''KQo'', ''KJo'', ''QJo'', ''JTo''}"

definition SUITED_ACES :: "string set" where
  "SUITED_ACES = {''A9s'', ''A8s'', ''A7s'', ''A6s'', ''A5s'', ''A4s'', ''A3s'', ''A2s''}"

definition SB_EXTRA :: "string set" where
  "SB_EXTRA = {''KTo'', ''QTo'', ''JTo'', ''T9o'', ''98o'', ''A9o'', ''A8o'', ''K9s'', ''Q9s'',
     ''J8s'', ''T8s'', ''97s'', ''86s'', ''75s''}"

definition BB_EXTRA :: "string set" where
  "BB_EXTRA = {''A7o'', ''A6o'', ''A5o'', ''A4o'', ''A3o'', ''A2o'', ''K9o'', ''Q9o'', ''J9o'',
     ''T8o'', ''97o'', ''86o'', ''76o'', ''65o''}"

text \<open>\<^verbatim>\<open>_normalize_combo_literal\<close>: upper-case ranks, lower-case suffix.\<close>

definition normalize_combo_literal :: "string \<Rightarrow> error + string" where
  "normalize_combo_literal hand =
     (let cleaned = strip hand
      in if length cleaned = 2 then Inr (upper cleaned)
         else if length cleaned = 3 then Inr (upper (take 2 cleaned) @ lower [cleaned ! 2])
         else Inl ValueError)"

text \<open>
  \<^verbatim>\<open>_freeze\<close>: the set of the normalised literals; it raises when one of them is
  not a combo.
\<close>

definition freeze :: "string set \<Rightarrow> error + string set" where
  "freeze vals =
     (if \<exists>v \<in> vals. normalize_combo_literal v = Inl ValueError then Inl ValueError
      else Inr ((\<lambda>v. case normalize_combo_literal v of Inr n \<Rightarrow> n | Inl _ \<Rightarrow> v) ` vals))"

text \<open>\<^verbatim>\<open>PreflopRanges.OPENING_RANGES\<close>, one entry for each position.\<close>

fun OPENING_RANGES :: "position \<Rightarrow> error + string set" where
  "OPENING_RANGES UTG = Inr UTG_OPENING"
| "OPENING_RANGES MP = freeze (UTG_OPENING \<union> MP_ADDITIONS)"
| "OPENING_RANGES CO = freeze (UTG_OPENING \<union> MP_ADDITIONS \<union> CO_ADDITIONS)"
| "OPENING_RANGES BTN = freeze (ALL_PAIRS \<union> BROADWAY_SUITS \<union> BROADWAY_OFFSUIT \<union> SUITED_ACES)"
| "OPENING_RANGES SB =
     freeze (ALL_PAIRS \<union> BROADWAY_SUITS \<union> BROADWAY_OFFSUIT \<union> SUITED_ACES \<union> SB_EXTRA)"
| "OPENING_RANGES BB =
     freeze (ALL_PAIRS \<union> BROADWAY_SUITS \<union> BROADWAY_OFFSUIT \<union> SUITED_ACES \<union> SB_EXTRA
       \<union> BB_EXTRA)"

text \<open>
  \<^verbatim>\<open>PreflopRanges.normalize_hand\<close>. \<^verbatim>\<open>sorted(..., reverse=True)\<close> on two cards
  swaps them exactly when the first has the strictly lower rank.
\<close>

definition normalize_hand :: "string \<Rightarrow> string \<Rightarrow> error + string" where
  "normalize_hand card1_str card2_str =
     (case card_from_string card1_str of
        Inl e \<Rightarrow> Inl e
      | Inr card1 \<Rightarrow>
          (case card_from_string card2_str of
             Inl e \<Rightarrow> Inl e
           | Inr card2 \<Rightarrow>
               (let rank1 = upper (rank_short_name (rank card1));
                    rank2 = upper (rank_short_name (rank card2))
                in if rank1 = rank2 then Inr (rank1 @ rank2)
                   else
                     (let (high, low) =
                            (if rank_value (rank card1) < rank_value (rank card2)
                             then (card2, card1) else (card1, card2));
                          suffix = (if suit high = suit low then ''s'' else ''o'')
                      in Inr (upper (rank_short_name (rank high))
                              @ upper (rank_short_name (rank low)) @ suffix)))))"

text \<open>\<^verbatim>\<open>PreflopRanges.should_open\<close>; every position is a key of the table.\<close>

definition should_open :: "string \<Rightarrow> position \<Rightarrow> error + bool" where
  "should_open hand pos =
     (case OPENING_RANGES pos of
        Inl e \<Rightarrow> Inl e
      | Inr opening \<Rightarrow>
          (case normalize_combo_literal hand of
             Inl e \<Rightarrow> Inl e
           | Inr normalized \<Rightarrow> Inr (normalized \<in> opening)))"

section \<open>Game state (game_state.py)\<close>

record game_state =
  hole_cards :: "card list"
  board :: "card list"
  street :: street
  pot_size :: real
  bet_to_call :: real
  your_stack :: real
  opponent_stacks :: "real list"
  your_position :: position
  num_opponents :: int
  active_opponents :: int
  preflop_action :: "string list"

definition validate_cards :: "card list \<Rightarrow> nat \<Rightarrow> error + unit" where
  "validate_cards cards max_allowed =
     (if length cards > max_allowed then Inl ValueError else Inr ())"

text \<open>Cards are hashed and compared by rank and suit.\<close>

definition validate_no_duplicates :: "game_state \<Rightarrow> error + unit" where
  "validate_no_duplicates gs =
     (let combined = hole_cards gs @ board gs
      in if length combined \<noteq> card (set combined) then Inl ValueError else Inr ())"

definition validate_numeric_fields :: "game_state \<Rightarrow> error + unit" where
  "validate_numeric_fields gs =
     (if list_ex (\<lambda>v. v < 0) [pot_size gs, bet_to_call gs, your_stack gs] then Inl ValueError
      else if list_ex (\<lambda>stack. stack < 0) (opponent_stacks gs) then Inl ValueError
      else if num_opponents gs < 0 then Inl ValueError
      else if active_opponents gs < 0 then Inl ValueError
      else if active_opponents gs > num_opponents gs then Inl ValueError
      else Inr ())"

text \<open>
  \<^verbatim>\<open>GameState.__post_init__\<close>: the checks of the constructor, in its order. The
  copies made by \<^verbatim>\<open>_coerce_collections\<close> change no value, and \<^verbatim>\<open>_validate_actions\<close>
  checks types only.
\<close>

definition post_init :: "game_state \<Rightarrow> error + unit" where
  "post_init gs =
     (case validate_cards (hole_cards gs) 2 of
        Inl e \<Rightarrow> Inl e
      | Inr _ \<Rightarrow>
          (case validate_cards (board gs) 5 of
             Inl e \<Rightarrow> Inl e
           | Inr _ \<Rightarrow>
               (case validate_no_duplicates gs of
                  Inl e \<Rightarrow> Inl e
                | Inr _ \<Rightarrow> validate_numeric_fields gs)))"

text \<open>A valid game state is one that the constructor accepts.\<close>

definition valid_game_state :: "game_state \<Rightarrow> bool" where
  "valid_game_state gs = (post_init gs = Inr ())"

definition pot_odds :: "game_state \<Rightarrow> real" where
  "pot_odds gs =
     (if bet_to_call gs \<le> 0 then 0
      else
        (let total = pot_size gs + bet_to_call gs
         in if total \<le> 0 then 0 else bet_to_call gs / total))"

text \<open>\<^verbatim>\<open>min(stacks)\<close> of a list that starts with the hero's stack.\<close>

definition effective_stack :: "game_state \<Rightarrow> real" where
  "effective_stack gs =
     (let stacks = your_stack gs # opponent_stacks gs
      in if stacks = [] then 0 else fold min (tl stacks) (hd stacks))"

section \<open>Odds calculator (odds_calculator.py)\<close>

definition calculate_pot_odds :: "game_state \<Rightarrow> error + real" where
  "calculate_pot_odds gs =
     (let btc = max (bet_to_call gs) 0
      in if btc = 0 then Inr 0
         else
           (let pot = max (pot_size gs) 0;
                denominator = pot + btc
            in if denominator \<le> 0 then Inl ValueError else Inr (btc / denominator)))"

definition calculate_implied_odds :: "game_state \<Rightarrow> real \<Rightarrow> error + real" where
  "calculate_implied_odds gs future_bets =
     (if future_bets < 0 then Inl ValueError
      else
        (let btc = max (bet_to_call gs) 0
         in if btc = 0 then Inr 0
            else
              (let pot = max (pot_size gs) 0;
                   denominator = pot + future_bets + btc
               in if denominator \<le> 0 then Inl ValueError else Inr (btc / denominator))))"

section \<open>Hand evaluator (hand_evaluator.py)\<close>

text \<open>
  The ranking itself is the function \<^verbatim>\<open>Evaluator.evaluate(board, hand)\<close> of the treys
  library, outside the repository: it is a parameter \<open>ev\<close>, an integer for each board
  and hand, lower for the stronger hand.
\<close>

type_synonym evaluator = "card list \<Rightarrow> card list \<Rightarrow> int"

fun ensure_no_duplicates :: "string set \<Rightarrow> card list \<Rightarrow> error + unit" where
  "ensure_no_duplicates seen [] = Inr ()"
| "ensure_no_duplicates seen (c # cs) =
     (let rep = card_str c
      in if rep \<in> seen then Inl ValueError else ensure_no_duplicates (insert rep seen) cs)"

definition evaluate_hand :: "evaluator \<Rightarrow> card list \<Rightarrow> card list \<Rightarrow> error + int" where
  "evaluate_hand ev hole brd =
     (if length hole \<noteq> 2 then Inl ValueError
      else if length brd > 5 then Inl ValueError
      else
        (case ensure_no_duplicates {} (hole @ brd) of
           Inl e \<Rightarrow> Inl e
         | Inr _ \<Rightarrow> Inr (ev brd hole)))"

section \<open>Monte Carlo simulator (monte_carlo.py)\<close>

definition mc_validate_cards :: "card list \<Rightarrow> nat option \<Rightarrow> error + unit" where
  "mc_validate_cards cards max_length =
     (case max_length of
        None \<Rightarrow> Inr ()
      | Some m \<Rightarrow> if length cards > m then Inl ValueError else Inr ())"

definition ensure_unique :: "card list \<Rightarrow> error + unit" where
  "ensure_unique cards =
     (let seen = set (map card_str cards)
      in if length cards \<noteq> card seen then Inl ValueError else Inr ())"

definition full_deck :: "card list" where
  "full_deck = concat (map (\<lambda>r. map (\<lambda>s. Card r s) all_suits) all_ranks)"

definition create_deck :: "card list \<Rightarrow> error + card list" where
  "create_deck exclude_cards =
     (case mc_validate_cards exclude_cards None of
        Inl e \<Rightarrow> Inl e
      | Inr _ \<Rightarrow>
          (case ensure_unique exclude_cards of
             Inl e \<Rightarrow> Inl e
           | Inr _ \<Rightarrow>
               (let excluded = set (map card_str exclude_cards)
                in Inr (filter (\<lambda>c. card_str c \<notin> excluded) full_deck))))"

text \<open>
  The random source is a state \<open>'g\<close> and the function \<open>shuf\<close>, which returns the
  shuffled list and the next state (\<^verbatim>\<open>self._rng.shuffle(deck)\<close>).
\<close>

type_synonym 'g shuffler = "'g \<Rightarrow> card list \<Rightarrow> card list \<times> 'g"

text \<open>\<^verbatim>\<open>min\<close> of a list; Python raises \<^verbatim>\<open>ValueError\<close> on the empty list.\<close>

definition py_min :: "int list \<Rightarrow> error + int" where
  "py_min xs = (case xs of [] \<Rightarrow> Inl ValueError | x # rest \<Rightarrow> Inr (fold min rest x))"

text \<open>The inner loop: two cards from the front of the deck for each opponent.\<close>

fun deal_opponents :: "evaluator \<Rightarrow> card list \<Rightarrow> nat \<Rightarrow> card list \<Rightarrow> error + int list" where
  "deal_opponents ev sim_board 0 deck = Inr []"
| "deal_opponents ev sim_board (Suc k) deck =
     (if length deck < 2 then Inl ValueError
      else
        (case evaluate_hand ev (take 2 deck) sim_board of
           Inl e \<Rightarrow> Inl e
         | Inr opponent_rank \<Rightarrow>
             (case deal_opponents ev sim_board k (drop 2 deck) of
                Inl e \<Rightarrow> Inl e
              | Inr ranks \<Rightarrow> Inr (opponent_rank # ranks))))"

text \<open>
  One pass of the outer loop after the shuffle: the increments of \<^verbatim>\<open>wins\<close> and
  \<^verbatim>\<open>ties\<close>.
\<close>

definition run_trial ::
  "evaluator \<Rightarrow> card list \<Rightarrow> card list \<Rightarrow> int \<Rightarrow> card list \<Rightarrow> error + (int \<times> int)" where
  "run_trial ev hero brd n deck =
     (let board_needed = 5 - int (length brd);
          sim_board = (if board_needed > 0 then brd @ take (nat board_needed) deck else brd);
          deck1 = (if board_needed > 0 then drop (nat board_needed) deck else deck)
      in case evaluate_hand ev hero sim_board of
           Inl e \<Rightarrow> Inl e
         | Inr hero_rank \<Rightarrow>
             (case deal_opponents ev sim_board (nat n) deck1 of
                Inl e \<Rightarrow> Inl e
              | Inr opponent_ranks \<Rightarrow>
                  (case py_min opponent_ranks of
                     Inl e \<Rightarrow> Inl e
                   | Inr best_opponent_rank \<Rightarrow>
                       if hero_rank < best_opponent_rank then Inr (1, 0)
                       else if hero_rank = best_opponent_rank then Inr (0, 1)
                       else Inr (0, 0))))"

text \<open>The outer loop, with the number of passes left and the two counters.\<close>

fun run_trials ::
  "evaluator \<Rightarrow> 'g shuffler \<Rightarrow> card list \<Rightarrow> card list \<Rightarrow> int \<Rightarrow> card list \<Rightarrow> nat \<Rightarrow> 'g
     \<Rightarrow> int \<times> int \<Rightarrow> error + (int \<times> int)" where
  "run_trials ev shuf hero brd n base_deck 0 g (wins, ties) = Inr (wins, ties)"
| "run_trials ev shuf hero brd n base_deck (Suc k) g (wins, ties) =
     (case shuf g base_deck of
        (deck, g') \<Rightarrow>
          (case run_trial ev hero brd n deck of
             Inl e \<Rightarrow> Inl e
           | Inr (dw, dt) \<Rightarrow>
               run_trials ev shuf hero brd n base_deck k g' (wins + dw, ties + dt)))"

text \<open>
  The checks of \<^verbatim>\<open>simulate_equity\<close> and the working deck, before the trials.
  The result is the working deck.
\<close>

definition simulate_setup :: "card list \<Rightarrow> card list \<Rightarrow> int \<Rightarrow> error + card list" where
  "simulate_setup hero brd n =
     (case mc_validate_cards hero None of
        Inl e \<Rightarrow> Inl e
      | Inr _ \<Rightarrow>
          (case mc_validate_cards brd (Some 5) of
             Inl e \<Rightarrow> Inl e
           | Inr _ \<Rightarrow>
               if length hero \<noteq> 2 then Inl ValueError
               else if length brd > 5 then Inl ValueError
               else if n < 1 then Inl ValueError
               else
                 (let combined = hero @ brd
                  in case ensure_unique combined of
                       Inl e \<Rightarrow> Inl e
                     | Inr _ \<Rightarrow>
                         (case create_deck combined of
                            Inl e \<Rightarrow> Inl e
                          | Inr base_deck \<Rightarrow>
                              (let cards_needed = max 0 (5 - int (length brd)) + n * 2
                               in if int (length base_deck) < cards_needed then Inl ValueError
                                  else Inr base_deck)))))"

text \<open>
  \<^verbatim>\<open>MonteCarloSimulator.simulate_equity\<close> of a simulator with \<open>num_simulations\<close>
  trials, evaluator \<open>ev\<close> and random source \<open>shuf\<close> in state \<open>g\<close>. The constructor
  accepts a positive \<open>num_simulations\<close> only.
\<close>

definition simulate_tally ::
  "int \<Rightarrow> evaluator \<Rightarrow> 'g shuffler \<Rightarrow> 'g \<Rightarrow> card list \<Rightarrow> card list \<Rightarrow> int
     \<Rightarrow> error + (int \<times> int)" where
  "simulate_tally num_simulations ev shuf g hero brd n =
     (case simulate_setup hero brd n of
        Inl e \<Rightarrow> Inl e
      | Inr base_deck \<Rightarrow>
          run_trials ev shuf hero brd n base_deck (nat num_simulations) g (0, 0))"

definition simulate_equity ::
  "int \<Rightarrow> evaluator \<Rightarrow> 'g shuffler \<Rightarrow> 'g \<Rightarrow> card list \<Rightarrow> card list \<Rightarrow> int \<Rightarrow> error + real" where
  "simulate_equity num_simulations ev shuf g hero brd n =
     (case simulate_tally num_simulations ev shuf g hero brd n of
        Inl e \<Rightarrow> Inl e
      | Inr (wins, ties) \<Rightarrow>
          Inr ((real_of_int wins + 0.5 * real_of_int ties) / real_of_int num_simulations))"

section \<open>Actions (action.py)\<close>

datatype action_type = FOLD | CHECK | CALL | BET | RAISE | ALL_IN

section \<open>Decision engine (decision_engine.py)\<close>

text \<open>
  A line of the reasoning trail. Each constructor stands for one of the texts that the
  engine appends, with the value that the text shows; the rendering of the value as a
  percentage is not modelled.
\<close>

datatype rationale =
    N_hand string
  | N_position position
  | N_pot_odds real
  | N_in_opening_range
  | N_outside_opening_range
  | N_premium
  | N_equity_vs_range real
  | N_min_equity real
  | N_equity_well_above
  | N_equity_enough_to_call
  | N_implied_odds real
  | N_speculative_call
  | N_insufficient_fold
  | N_board_incomplete
  | N_equity real
  | N_current_pot_odds real
  | N_multiway real
  | N_value_bet
  | N_medium_equity
  | N_low_equity
  | N_min_continue real
  | N_dominant_raise
  | N_profitable_call
  | N_below_requirement_fold
  | N_short_stack

datatype decision_result =
  DecisionResult (action: action_type) (amount: real) (reasoning: "rationale list")

definition PREMIUM_HANDS :: "string set" where
  "PREMIUM_HANDS = {''AA'', ''KK'', ''QQ'', ''AKS'', ''AKO''}"

definition STRONG_HANDS :: "string set" where
  "STRONG_HANDS = {''JJ'', ''TT'', ''99'', ''AQS'', ''AJS'', ''AQO'', ''KQS''}"

definition SPECULATIVE_HANDS :: "string set" where
  "SPECULATIVE_HANDS = {upper ''ATs'', upper ''KJs'', upper ''QJs'', upper ''JTs'', upper ''T9s'',
     upper ''98s'', upper ''87s'', upper ''A5s'', upper ''A4s'', upper ''A3s'', upper ''A2s'',
     upper ''KTs'', upper ''QTs''}"

text \<open>
  The engine holds a simulator; \<open>sim\<close> is its bound method
  \<^verbatim>\<open>self.monte_carlo.simulate_equity\<close>, that is \<open>simulate_equity\<close> above applied to
  the number of trials, the evaluator and the random source.
\<close>

type_synonym simulator = "card list \<Rightarrow> card list \<Rightarrow> int \<Rightarrow> error + real"

text \<open>\<^verbatim>\<open>_estimate_equity\<close>: a \<^verbatim>\<open>ValueError\<close> of the simulator becomes the equity 0.\<close>

definition estimate_equity :: "simulator \<Rightarrow> game_state \<Rightarrow> error + real" where
  "estimate_equity sim gs =
     (case sim (hole_cards gs) (board gs) (max 1 (active_opponents gs)) of
        Inr equity \<Rightarrow> Inr equity
      | Inl ValueError \<Rightarrow> Inr 0
      | Inl e \<Rightarrow> Inl e)"

definition multiway_adjustment :: "int \<Rightarrow> real" where
  "multiway_adjustment opponents = (let extras = max 0 (opponents - 1) in real_of_int extras * 0.05)"

definition infer_big_blind :: "game_state \<Rightarrow> real" where
  "infer_big_blind gs = (if pot_size gs > 0 then max 1 (pot_size gs / 1.5) else 10)"

definition suggest_open_raise :: "game_state \<Rightarrow> real" where
  "suggest_open_raise gs =
     (let big_blind = infer_big_blind gs; amt = 2.7 * big_blind in min amt (your_stack gs))"

definition suggest_3bet_size :: "game_state \<Rightarrow> real" where
  "suggest_3bet_size gs =
     (let base = (if bet_to_call gs > 0 then bet_to_call gs * 3 else infer_big_blind gs * 3)
      in min base (your_stack gs))"

definition suggest_value_bet :: "game_state \<Rightarrow> real" where
  "suggest_value_bet gs =
     (let amt = max (pot_size gs * 0.6) (pot_size gs * 0.5) in min amt (your_stack gs))"

definition suggest_small_bet :: "game_state \<Rightarrow> real" where
  "suggest_small_bet gs =
     (let amt = pot_size gs * 0.4 in if amt > 0 then min amt (your_stack gs) else 0)"

definition suggest_raise_size :: "game_state \<Rightarrow> real" where
  "suggest_raise_size gs =
     (let amt = max (bet_to_call gs * 2.5) (pot_size gs * 0.8) in min amt (your_stack gs))"

definition short_stack_adjustment ::
  "game_state \<Rightarrow> action_type \<Rightarrow> real \<Rightarrow> rationale list \<Rightarrow> decision_result" where
  "short_stack_adjustment gs act amt rs =
     (let eff = effective_stack gs
      in if eff \<le> max (pot_size gs * 1.5) (bet_to_call gs)
         then DecisionResult ALL_IN eff (rs @ [N_short_stack])
         else DecisionResult act (min amt (your_stack gs)) rs)"

text \<open>
  The part of \<^verbatim>\<open>_recommend_preflop\<close> that faces a bet with a hand outside the
  premium tier, from the equity estimate on.
\<close>

definition preflop_facing_bet ::
  "game_state \<Rightarrow> string \<Rightarrow> real \<Rightarrow> real \<Rightarrow> rationale list \<Rightarrow> error + decision_result" where
  "preflop_facing_bet gs normalized_combo pot_odds_v equity rs0 =
     (let rs1 = rs0 @ [N_equity_vs_range equity];
          multiway_adjust = multiway_adjustment (active_opponents gs);
          required_equity = pot_odds_v + multiway_adjust;
          rs2 = rs1 @ [N_min_equity required_equity]
      in if normalized_combo \<in> STRONG_HANDS \<and> equity \<ge> required_equity + 0.1 then
           Inr (short_stack_adjustment gs RAISE (suggest_3bet_size gs)
                  (rs2 @ [N_equity_well_above]))
         else if normalized_combo \<in> STRONG_HANDS \<and> equity \<ge> required_equity then
           Inr (short_stack_adjustment gs CALL (min (bet_to_call gs) (your_stack gs))
                  (rs2 @ [N_equity_enough_to_call]))
         else if normalized_combo \<in> SPECULATIVE_HANDS then
           (case calculate_implied_odds gs (pot_size gs * 0.5) of
              Inl e \<Rightarrow> Inl e
            | Inr implied_odds \<Rightarrow>
                (let rs3 = rs2 @ [N_implied_odds implied_odds]
                 in if equity \<ge> implied_odds then
                      Inr (short_stack_adjustment gs CALL (min (bet_to_call gs) (your_stack gs))
                             (rs3 @ [N_speculative_call]))
                    else Inr (DecisionResult FOLD 0 (rs3 @ [N_insufficient_fold]))))
         else Inr (DecisionResult FOLD 0 (rs2 @ [N_insufficient_fold])))"

text \<open>
  \<^verbatim>\<open>_recommend_preflop\<close>. The call \<^verbatim>\<open>normalize_hand(*hero_cards)\<close> passes one
  argument for each hole card and is a \<^verbatim>\<open>TypeError\<close> unless there are two.
\<close>

definition recommend_preflop :: "simulator \<Rightarrow> game_state \<Rightarrow> error + decision_result" where
  "recommend_preflop sim gs =
     (case map card_str (hole_cards gs) of
        [s1, s2] \<Rightarrow>
          (case normalize_hand s1 s2 of
             Inl e \<Rightarrow> Inl e
           | Inr combo \<Rightarrow>
               (let rs0 = [N_hand combo, N_position (your_position gs)];
                    btc = bet_to_call gs
                in case (if btc > 0 then calculate_pot_odds gs else Inr 0) of
                     Inl e \<Rightarrow> Inl e
                   | Inr pot_odds_v \<Rightarrow>
                       (let rs1 = (if btc > 0 then rs0 @ [N_pot_odds pot_odds_v] else rs0)
                        in if btc = 0 then
                             (case should_open combo (your_position gs) of
                                Inl e \<Rightarrow> Inl e
                              | Inr opens \<Rightarrow>
                                  if opens then
                                    Inr (DecisionResult RAISE (suggest_open_raise gs)
                                           (rs1 @ [N_in_opening_range]))
                                  else
                                    Inr (DecisionResult FOLD 0 (rs1 @ [N_outside_opening_range])))
                           else
                             (let normalized_combo = upper combo
                              in if normalized_combo \<in> PREMIUM_HANDS then
                                   Inr (short_stack_adjustment gs RAISE (suggest_3bet_size gs)
                                          (rs1 @ [N_premium]))
                                 else
                                   (case estimate_equity sim gs of
                                      Inl e \<Rightarrow> Inl e
                                    | Inr equity \<Rightarrow>
                                        preflop_facing_bet gs normalized_combo pot_odds_v
                                          equity rs1)))))
      | _ \<Rightarrow> Inl TypeError)"

text \<open>
  The part of \<^verbatim>\<open>_recommend_postflop\<close> after the equity estimate, the pot odds and
  the multiway adjustment have been computed and noted.
\<close>

definition postflop_decide ::
  "game_state \<Rightarrow> real \<Rightarrow> real \<Rightarrow> real \<Rightarrow> rationale list \<Rightarrow> decision_result" where
  "postflop_decide gs equity pot_odds_v multiway_adjust rs =
     (if bet_to_call gs = 0 then
        (if equity \<ge> 0.65 + multiway_adjust then
           short_stack_adjustment gs BET (suggest_value_bet gs) (rs @ [N_value_bet])
         else if equity \<ge> 0.45 + multiway_adjust then
           (let rs1 = rs @ [N_medium_equity];
                amt = suggest_small_bet gs
            in if amt > 0 then short_stack_adjustment gs BET amt rs1
               else DecisionResult CHECK 0 rs1)
         else DecisionResult CHECK 0 (rs @ [N_low_equity]))
      else
        (let required_equity = pot_odds_v * 1.15 + multiway_adjust;
             rs1 = rs @ [N_min_continue required_equity]
         in if equity \<ge> required_equity then
              (if equity \<ge> 0.70 + multiway_adjust then
                 short_stack_adjustment gs RAISE (suggest_raise_size gs)
                   (rs1 @ [N_dominant_raise])
               else
                 short_stack_adjustment gs CALL (min (bet_to_call gs) (your_stack gs))
                   (rs1 @ [N_profitable_call]))
            else DecisionResult FOLD 0 (rs1 @ [N_below_requirement_fold])))"

definition recommend_postflop :: "simulator \<Rightarrow> game_state \<Rightarrow> error + decision_result" where
  "recommend_postflop sim gs =
     (let rs0 = (if length (board gs) < 3 \<and> street gs \<noteq> PREFLOP then [N_board_incomplete] else [])
      in case estimate_equity sim gs of
           Inl e \<Rightarrow> Inl e
         | Inr equity \<Rightarrow>
             (let rs1 = rs0 @ [N_equity equity]
              in case (if bet_to_call gs > 0 then calculate_pot_odds gs else Inr 0) of
                   Inl e \<Rightarrow> Inl e
                 | Inr pot_odds_v \<Rightarrow>
                     (let rs2 = rs1 @ [N_current_pot_odds pot_odds_v];
                          multiway_adjust = multiway_adjustment (active_opponents gs);
                          rs3 = rs2 @ [N_multiway multiway_adjust]
                      in Inr (postflop_decide gs equity pot_odds_v multiway_adjust rs3))))"

text \<open>\<^verbatim>\<open>DecisionEngine.recommend_action\<close>, the public entry point.\<close>

definition recommend_action ::
  "simulator \<Rightarrow> game_state \<Rightarrow> error + (action_type \<times> real \<times> rationale list)" where
  "recommend_action sim gs =
     (if length (hole_cards gs) \<noteq> 2 then Inl ValueError
      else
        (case (if street gs = PREFLOP then recommend_preflop sim gs
               else recommend_postflop sim gs) of
           Inl e \<Rightarrow> Inl e
         | Inr result \<Rightarrow> Inr (action result, amount result, reasoning result)))"

section \<open>The combo label of the specification\<close>

text \<open>
  The canonical label as the specification words it: the higher rank first, then
  \<open>s\<close> for two cards of one suit and \<open>o\<close> for two suits, and no suffix for a pair.
\<close>

definition combo_label :: "card \<Rightarrow> card \<Rightarrow> string" where
  "combo_label c1 c2 =
     (let hi = (if rank_value (rank c1) < rank_value (rank c2) then c2 else c1);
          lo = (if rank_value (rank c1) < rank_value (rank c2) then c1 else c2)
      in rank_short_name (rank hi) @ rank_short_name (rank lo)
         @ (if rank c1 = rank c2 then [] else if suit c1 = suit c2 then ''s'' else ''o''))"

section \<open>Example inputs\<close>

text \<open>Pot 100 with 50 to call, before the flop on the button.\<close>

definition ex_pot_odds :: game_state where
  "ex_pot_odds = \<lparr>hole_cards = [Card ACE SPADES, Card ACE HEARTS], board = [],
     street = PREFLOP, pot_size = 100, bet_to_call = 50, your_stack = 1000,
     opponent_stacks = [], your_position = BTN, num_opponents = 5, active_opponents = 5,
     preflop_action = []\<rparr>"

text \<open>
  A random source that leaves the deck in its order, and an evaluator under which all
  hands tie.
\<close>

definition shuf_id :: "unit shuffler" where
  "shuf_id g deck = (deck, g)"

definition ev_tie :: evaluator where
  "ev_tie brd hand = 1"

text \<open>
  An evaluator for the river example below: the hero's two aces make four aces with
  the king (rank 11 on the scale of treys, which puts the straight flushes on 1 to 10
  and the other fours of a kind on 12 to 166), and every other hand ranks behind.
  That board admits no flush, so no opponent can rank ahead.
\<close>

definition ev_quads :: evaluator where
  "ev_quads brd hand = (if hand = [Card ACE SPADES, Card ACE HEARTS] then 11 else 167)"

text \<open>Short stacks: a stack of 40 behind a pot of 100.\<close>

definition ex_short_fold :: game_state where
  "ex_short_fold = \<lparr>hole_cards = [Card SEVEN CLUBS, Card TWO DIAMONDS], board = [],
     street = PREFLOP, pot_size = 100, bet_to_call = 0, your_stack = 40,
     opponent_stacks = [], your_position = UTG, num_opponents = 5, active_opponents = 5,
     preflop_action = []\<rparr>"

definition ex_short_open :: game_state where
  "ex_short_open = \<lparr>hole_cards = [Card ACE SPADES, Card ACE DIAMONDS], board = [],
     street = PREFLOP, pot_size = 100, bet_to_call = 0, your_stack = 40,
     opponent_stacks = [], your_position = UTG, num_opponents = 5, active_opponents = 5,
     preflop_action = []\<rparr>"

definition ex_short_premium :: game_state where
  "ex_short_premium = \<lparr>hole_cards = [Card ACE SPADES, Card ACE DIAMONDS], board = [],
     street = PREFLOP, pot_size = 100, bet_to_call = 20, your_stack = 40,
     opponent_stacks = [], your_position = UTG, num_opponents = 5, active_opponents = 5,
     preflop_action = []\<rparr>"

definition ex_short_river :: game_state where
  "ex_short_river = \<lparr>hole_cards = [Card ACE SPADES, Card ACE HEARTS],
     board = [Card ACE DIAMONDS, Card ACE CLUBS, Card KING SPADES, Card SEVEN HEARTS,
              Card TWO DIAMONDS],
     street = RIVER, pot_size = 100, bet_to_call = 20, your_stack = 40,
     opponent_stacks = [], your_position = BTN, num_opponents = 1, active_opponents = 1,
     preflop_action = []\<rparr>"

text \<open>The same river with a deep stack.\<close>

definition ex_deep_river :: game_state where
  "ex_deep_river = ex_short_river\<lparr>your_stack := 1000\<rparr>"

text \<open>A flop against 23 opponents, more than the deck can deal to.\<close>

definition ex_crowded :: game_state where
  "ex_crowded = \<lparr>hole_cards = [Card ACE SPADES, Card KING SPADES],
     board = [Card TWO CLUBS, Card SEVEN DIAMONDS, Card NINE SPADES],
     street = FLOP, pot_size = 100, bet_to_call = 20, your_stack = 1000,
     opponent_stacks = [], your_position = BTN, num_opponents = 23, active_opponents = 23,
     preflop_action = []\<rparr>"

text \<open>The same flop with a stack of 40.\<close>

definition ex_short_crowded :: game_state where
  "ex_short_crowded = ex_crowded\<lparr>your_stack := 40\<rparr>"

text \<open>A state with one hole card.\<close>

definition ex_one_card :: game_state where
  "ex_one_card = ex_pot_odds\<lparr>hole_cards := [Card ACE SPADES]\<rparr>"

section \<open>Well-formed results\<close>

text \<open>
  A result whose amount is not negative and within the hero's stack, with a reasoning
  trail that is not empty.
\<close>

definition ok_result :: "game_state \<Rightarrow> decision_result \<Rightarrow> bool" where
  "ok_result gs r = (0 \<le> amount r \<and> amount r \<le> your_stack gs \<and> reasoning r \<noteq> [])"

section \<open>Card tokens and hand normalisation\<close>

lemma strip_rank_short_name: "strip (rank_short_name r) = rank_short_name r"
  by (cases r) (simp_all add: strip_def py_isspace_def)

lemma strip_suit_short_name: "strip (suit_short_name s) = suit_short_name s"
  by (cases s) (simp_all add: strip_def py_isspace_def)

lemma upper_rank_short_name: "upper (rank_short_name r) = rank_short_name r"
  by (cases r) (simp_all add: upper_def upper_char_def)

lemma lower_suit_short_name: "lower (suit_short_name s) = suit_short_name s"
  by (cases s) (simp_all add: lower_def lower_char_def)

lemma rank_from_string_short_name: "rank_from_string (rank_short_name r) = Inr r"
  unfolding rank_from_string_def strip_rank_short_name upper_rank_short_name
  by (cases r) (simp_all add: all_ranks_def)

lemma suit_from_string_short_name: "suit_from_string (suit_short_name s) = Inr s"
  unfolding suit_from_string_def strip_suit_short_name lower_suit_short_name
  by (cases s) (simp_all add: all_suits_def)

lemma length_rank_short_name: "length (rank_short_name r) = 1"
  by (cases r) simp_all

lemma length_suit_short_name: "length (suit_short_name s) = 1"
  by (cases s) simp_all

lemma strip_card_str: "strip (card_str c) = card_str c"
  by (cases c; cases "rank c"; cases "suit c") (simp_all add: card_str_def strip_def py_isspace_def)

lemma butlast_card_str: "butlast (card_str c) = rank_short_name (rank c)"
  using length_suit_short_name [of "suit c"]
  by (cases "suit_short_name (suit c)") (simp_all add: card_str_def butlast_append)

lemma last_card_str: "[last (card_str c)] = suit_short_name (suit c)"
  using length_suit_short_name [of "suit c"]
  by (cases "suit_short_name (suit c)") (simp_all add: card_str_def)

text \<open>Parsing the token of a card gives the card back.\<close>

lemma card_from_string_card_str: "card_from_string (card_str c) = Inr c"
proof -
  have len: "length (card_str c) = 2"
    by (simp add: card_str_def length_rank_short_name length_suit_short_name)
  then have ne: "card_str c \<noteq> []" by auto
  show ?thesis
    by (simp add: card_from_string_def Let_def strip_card_str butlast_card_str last_card_str
        ne len rank_from_string_short_name suit_from_string_short_name)
qed

lemma card_str_inj: "card_str c1 = card_str c2 \<Longrightarrow> c1 = c2"
  by (metis card_from_string_card_str Inr_inject)

lemma rank_value_inj: "rank_value r1 = rank_value r2 \<Longrightarrow> r1 = r2"
  by (cases r1; cases r2) simp_all

lemma rank_short_name_inj: "rank_short_name r1 = rank_short_name r2 \<Longrightarrow> r1 = r2"
  by (cases r1; cases r2) simp_all

lemma normalize_hand_card_str:
  "normalize_hand (card_str c1) (card_str c2) = Inr (combo_label c1 c2)"
  using rank_short_name_inj [of "rank c1" "rank c2"]
  by (auto simp add: normalize_hand_def card_from_string_card_str upper_rank_short_name
      combo_label_def Let_def)

lemma combo_label_commute: "combo_label c1 c2 = combo_label c2 c1"
  using rank_value_inj [of "rank c1" "rank c2"]
  by (auto simp add: combo_label_def Let_def)

text \<open>
  Claim C6. On the tokens of any two cards, \<open>normalize_hand\<close> returns the canonical
  combo label of the specification, whichever card comes first: the higher rank first,
  \<open>s\<close> for one suit, \<open>o\<close> for two suits, no suffix for a pair. In particular the
  ace and king of spades give \<open>AKs\<close> in both orders, the sevens of hearts and diamonds
  give \<open>77\<close>, and the king of spades with the ace of diamonds gives \<open>AKo\<close>.
\<close>

theorem normalize_hand_order_independent:
  "normalize_hand (card_str c1) (card_str c2) = Inr (combo_label c1 c2)
   \<and> normalize_hand (card_str c2) (card_str c1) = Inr (combo_label c1 c2)
   \<and> normalize_hand (card_str (Card ACE SPADES)) (card_str (Card KING SPADES)) = Inr ''AKs''
   \<and> normalize_hand (card_str (Card KING SPADES)) (card_str (Card ACE SPADES)) = Inr ''AKs''
   \<and> normalize_hand (card_str (Card SEVEN HEARTS)) (card_str (Card SEVEN DIAMONDS)) = Inr ''77''
   \<and> normalize_hand (card_str (Card KING SPADES)) (card_str (Card ACE DIAMONDS)) = Inr ''AKo''"
proof -
  have "normalize_hand (card_str c2) (card_str c1) = Inr (combo_label c1 c2)"
    using normalize_hand_card_str [of c2 c1] combo_label_commute [of c1 c2] by simp
  then show ?thesis
    by (simp add: normalize_hand_card_str combo_label_def)
qed

theorem normalize_hand_order_independent_witness:
  "normalize_hand ''Qh'' ''Jh'' = Inr ''QJs'' \<and> normalize_hand ''Jh'' ''Qh'' = Inr ''QJs''"
  using normalize_hand_order_independent [of "Card QUEEN HEARTS" "Card JACK HEARTS"]
  by (simp add: card_str_def combo_label_def)

section \<open>Opening ranges\<close>

text \<open>Every literal of the tables is already in canonical form, so \<open>freeze\<close> keeps it.\<close>

lemma OPENING_RANGES_value:
  "OPENING_RANGES p = Inr (case p of UTG \<Rightarrow> UTG_OPENING | MP \<Rightarrow> UTG_OPENING \<union> MP_ADDITIONS
     | CO \<Rightarrow> UTG_OPENING \<union> MP_ADDITIONS \<union> CO_ADDITIONS
     | BTN \<Rightarrow> ALL_PAIRS \<union> BROADWAY_SUITS \<union> BROADWAY_OFFSUIT \<union> SUITED_ACES
     | SB \<Rightarrow> ALL_PAIRS \<union> BROADWAY_SUITS \<union> BROADWAY_OFFSUIT \<union> SUITED_ACES \<union> SB_EXTRA
     | BB \<Rightarrow> ALL_PAIRS \<union> BROADWAY_SUITS \<union> BROADWAY_OFFSUIT \<union> SUITED_ACES \<union> SB_EXTRA
         \<union> BB_EXTRA)"
  by (cases p)
    (simp_all add: freeze_def normalize_combo_literal_def strip_def py_isspace_def upper_def
      lower_def upper_char_def lower_char_def UTG_OPENING_def MP_ADDITIONS_def CO_ADDITIONS_def
      ALL_PAIRS_def BROADWAY_SUITS_def BROADWAY_OFFSUIT_def SUITED_ACES_def SB_EXTRA_def
      BB_EXTRA_def)

lemma OPENING_RANGES_ok: "\<exists>S. OPENING_RANGES p = Inr S"
  using OPENING_RANGES_value [of p] by blast

text \<open>
  Claim C9. For each of the six positions the table of opening ranges is built without
  error, the label \<open>AA\<close> is in the position's range and the label \<open>72o\<close> is not;
  \<open>should_open\<close> answers accordingly.
\<close>

theorem AA_in_every_opening_range_72o_in_none:
  "(\<exists>S. OPENING_RANGES p = Inr S \<and> ''AA'' \<in> S \<and> ''72o'' \<notin> S)
   \<and> should_open ''AA'' p = Inr True \<and> should_open ''72o'' p = Inr False"
  by (cases p)
    (simp_all add: should_open_def OPENING_RANGES_value del: OPENING_RANGES.simps,
     simp_all add: normalize_combo_literal_def strip_def py_isspace_def upper_def
      lower_def upper_char_def lower_char_def UTG_OPENING_def MP_ADDITIONS_def CO_ADDITIONS_def
      ALL_PAIRS_def BROADWAY_SUITS_def BROADWAY_OFFSUIT_def SUITED_ACES_def SB_EXTRA_def
      BB_EXTRA_def)

theorem AA_in_every_opening_range_72o_in_none_witness:
  "should_open ''AA'' BB = Inr True \<and> should_open ''72o'' BB = Inr False
   \<and> should_open ''AA'' UTG = Inr True \<and> should_open ''72o'' UTG = Inr False"
  using AA_in_every_opening_range_72o_in_none [of BB]
    AA_in_every_opening_range_72o_in_none [of UTG]
  by simp

section \<open>Valid game states and pot odds\<close>

lemma validate_no_duplicates_iff:
  "validate_no_duplicates gs = Inr () \<longleftrightarrow> distinct (hole_cards gs @ board gs)"
proof -
  have "length (hole_cards gs @ board gs) = card (set (hole_cards gs @ board gs))
    \<longleftrightarrow> distinct (hole_cards gs @ board gs)"
    using card_distinct [of "hole_cards gs @ board gs"]
      distinct_card [of "hole_cards gs @ board gs"] by metis
  then show ?thesis
    unfolding validate_no_duplicates_def Let_def
    by (cases "length (hole_cards gs @ board gs) = card (set (hole_cards gs @ board gs))")
       (simp_all only: if_True if_False not_not not_False_eq_True sum.distinct simp_thms)
qed

lemma validate_numeric_fields_iff:
  "validate_numeric_fields gs = Inr () \<longleftrightarrow>
     0 \<le> pot_size gs \<and> 0 \<le> bet_to_call gs \<and> 0 \<le> your_stack gs
     \<and> (\<forall>s \<in> set (opponent_stacks gs). 0 \<le> s)
     \<and> 0 \<le> num_opponents gs
     \<and> 0 \<le> active_opponents gs \<and> active_opponents gs \<le> num_opponents gs"
  by (simp add: validate_numeric_fields_def list_ex_iff not_less not_le)

lemma valid_game_state_iff:
  "valid_game_state gs \<longleftrightarrow>
     length (hole_cards gs) \<le> 2 \<and> length (board gs) \<le> 5
     \<and> distinct (hole_cards gs @ board gs)
     \<and> 0 \<le> pot_size gs \<and> 0 \<le> bet_to_call gs \<and> 0 \<le> your_stack gs
     \<and> (\<forall>s \<in> set (opponent_stacks gs). 0 \<le> s)
     \<and> 0 \<le> num_opponents gs
     \<and> 0 \<le> active_opponents gs \<and> active_opponents gs \<le> num_opponents gs"
proof -
  have "valid_game_state gs \<longleftrightarrow>
     length (hole_cards gs) \<le> 2 \<and> length (board gs) \<le> 5
     \<and> validate_no_duplicates gs = Inr () \<and> validate_numeric_fields gs = Inr ()"
    unfolding valid_game_state_def post_init_def validate_cards_def
    by (cases "validate_no_duplicates gs"; cases "validate_numeric_fields gs")
       (simp_all add: not_less)
  then show ?thesis
    unfolding validate_no_duplicates_iff validate_numeric_fields_iff by (simp only:)
qed

lemma valid_game_stateD:
  assumes "valid_game_state gs"
  shows "length (hole_cards gs) \<le> 2" "length (board gs) \<le> 5"
    "distinct (hole_cards gs @ board gs)"
    "0 \<le> pot_size gs" "0 \<le> bet_to_call gs" "0 \<le> your_stack gs"
    "\<forall>s \<in> set (opponent_stacks gs). 0 \<le> s"
    "0 \<le> active_opponents gs" "active_opponents gs \<le> num_opponents gs"
  using assms unfolding valid_game_state_iff by blast+

lemma pot_odds_valid:
  assumes "valid_game_state gs"
  shows "pot_odds gs = (if bet_to_call gs > 0 then bet_to_call gs / (pot_size gs + bet_to_call gs) else 0)"
  using valid_game_stateD(4,5) [OF assms]
  by (auto simp add: pot_odds_def Let_def)

lemma calculate_pot_odds_valid:
  assumes "valid_game_state gs"
  shows "calculate_pot_odds gs = Inr (pot_odds gs)"
  using valid_game_stateD(4,5) [OF assms]
  by (auto simp add: calculate_pot_odds_def pot_odds_def Let_def max_def)

text \<open>
  Claim C5. On every valid game state the property \<open>pot_odds\<close> of the game state and
  \<open>calculate_pot_odds\<close> of the odds calculator both give
  \<open>bet_to_call / (pot_size + bet_to_call)\<close> when a bet is owed and 0 otherwise, so
  they agree; with a pot of 100 and 50 to call they give one third.
\<close>

theorem pot_odds_implementations_agree:
  assumes "valid_game_state gs"
  shows "pot_odds gs
           = (if bet_to_call gs > 0 then bet_to_call gs / (pot_size gs + bet_to_call gs) else 0)
    \<and> calculate_pot_odds gs = Inr (pot_odds gs)
    \<and> (pot_size gs = 100 \<and> bet_to_call gs = 50 \<longrightarrow>
         pot_odds gs = 1 / 3 \<and> calculate_pot_odds gs = Inr (1 / 3))"
  using pot_odds_valid [OF assms] calculate_pot_odds_valid [OF assms]
  by auto

theorem pot_odds_implementations_agree_witness:
  "valid_game_state ex_pot_odds
   \<and> pot_odds ex_pot_odds = 1 / 3 \<and> calculate_pot_odds ex_pot_odds = Inr (1 / 3)"
proof -
  have v: "valid_game_state ex_pot_odds"
    by (simp add: valid_game_state_iff ex_pot_odds_def)
  show ?thesis
    using v pot_odds_implementations_agree [OF v] by (simp add: ex_pot_odds_def)
qed

section \<open>Input checks of the simulator\<close>

lemma ensure_unique_iff: "ensure_unique cards = Inr () \<longleftrightarrow> distinct cards"
proof -
  have inj: "inj_on card_str (set cards)"
    by (rule inj_onI) (rule card_str_inj)
  have "distinct (map card_str cards) \<longleftrightarrow> distinct cards"
    using inj by (simp add: distinct_map)
  moreover have "length cards = card (set (map card_str cards)) \<longleftrightarrow> distinct (map card_str cards)"
    using card_distinct [of "map card_str cards"] distinct_card [of "map card_str cards"]
    by (metis length_map)
  ultimately show ?thesis
    unfolding ensure_unique_def Let_def
    by (cases "length cards = card (set (map card_str cards))")
       (simp_all only: if_True if_False not_not not_False_eq_True sum.distinct simp_thms)
qed

lemma ensure_unique_cases: "ensure_unique cards = (if distinct cards then Inr () else Inl ValueError)"
  using ensure_unique_iff [of cards]
  by (auto simp add: ensure_unique_def Let_def split: if_splits)

lemma create_deck_distinct:
  "distinct cards \<Longrightarrow> create_deck cards = Inr (filter (\<lambda>c. c \<notin> set cards) full_deck)"
proof -
  assume d: "distinct cards"
  have "\<And>c. card_str c \<in> set (map card_str cards) \<longleftrightarrow> c \<in> set cards"
    using card_str_inj by auto
  then show ?thesis
    by (simp add: create_deck_def mc_validate_cards_def ensure_unique_cases d Let_def)
qed

text \<open>
  The checks of the simulator in one condition. The working deck is the 52 cards
  without the hero's and the board's.
\<close>

lemma simulate_setup_cases:
  "simulate_setup hero brd n =
     (if length hero \<noteq> 2 \<or> length brd > 5 \<or> n < 1 \<or> \<not> distinct (hero @ brd)
         \<or> int (length (filter (\<lambda>c. c \<notin> set (hero @ brd)) full_deck)) < (5 - int (length brd)) + 2 * n
      then Inl ValueError
      else Inr (filter (\<lambda>c. c \<notin> set (hero @ brd)) full_deck))"
proof (cases "distinct (hero @ brd)")
  case True
  show ?thesis
    using True
    by (simp add: simulate_setup_def mc_validate_cards_def ensure_unique_cases
        create_deck_distinct [OF True] Let_def max_def del: distinct_append set_append)
next
  case False
  then show ?thesis
    by (simp add: simulate_setup_def mc_validate_cards_def ensure_unique_cases Let_def
        del: distinct_append set_append)
qed

lemma length_full_deck: "length full_deck = 52"
  by (simp add: full_deck_def all_ranks_def all_suits_def)

lemma distinct_full_deck: "distinct full_deck"
  by (simp add: full_deck_def all_ranks_def all_suits_def)

lemma set_full_deck: "set full_deck = UNIV"
proof -
  have "c \<in> set full_deck" for c
    by (cases c; cases "rank c"; cases "suit c") (simp_all add: full_deck_def all_ranks_def all_suits_def)
  then show ?thesis by auto
qed

lemma length_working_deck:
  assumes "distinct cards"
  shows "length (filter (\<lambda>c. c \<notin> set cards) full_deck) = 52 - length cards"
proof -
  have "length (filter (\<lambda>c. c \<notin> set cards) full_deck) + length (filter (\<lambda>c. \<not> c \<notin> set cards) full_deck) = 52"
    using sum_length_filter_compl [of "\<lambda>c. c \<notin> set cards" full_deck] length_full_deck by simp
  moreover have "length (filter (\<lambda>c. \<not> c \<notin> set cards) full_deck) = length cards"
  proof -
    have "length (filter (\<lambda>c. c \<in> set cards) full_deck) = card (set (filter (\<lambda>c. c \<in> set cards) full_deck))"
      using distinct_card [of "filter (\<lambda>c. c \<in> set cards) full_deck"] distinct_full_deck
      by (simp del: set_filter)
    also have "set (filter (\<lambda>c. c \<in> set cards) full_deck) = set cards"
      using set_full_deck by auto
    also have "card (set cards) = length cards" using assms by (simp add: distinct_card)
    finally show ?thesis by simp
  qed
  ultimately show ?thesis by simp
qed

text \<open>
  Claim C7. \<open>simulate_equity\<close> raises \<open>ValueError\<close> whenever the hero's cards are
  not exactly two, or the board has more than five cards, or there is less than one
  opponent, or a card occurs twice among the hero's cards and the board, or the working
  deck has fewer than \<open>(5 - board size) + 2 * num_opponents\<close> cards.
\<close>

theorem simulate_equity_rejects_invalid_input:
  assumes "length hero \<noteq> 2 \<or> length brd > 5 \<or> n < 1 \<or> \<not> distinct (hero @ brd)
     \<or> int (length (filter (\<lambda>c. c \<notin> set (hero @ brd)) full_deck))
          < (5 - int (length brd)) + 2 * n"
  shows "simulate_equity num_simulations ev shuf g hero brd n = Inl ValueError"
  using assms
  by (simp add: simulate_equity_def simulate_tally_def simulate_setup_cases
      del: distinct_append set_append)

theorem simulate_equity_rejects_invalid_input_witness:
  "simulate_equity 100 ev_tie shuf_id () [Card ACE SPADES] [] 1 = Inl ValueError
   \<and> simulate_equity 100 ev_tie shuf_id () [Card ACE SPADES, Card KING SPADES]
        [Card TWO CLUBS, Card THREE CLUBS, Card FOUR CLUBS, Card FIVE CLUBS, Card SIX CLUBS,
         Card SEVEN CLUBS] 1 = Inl ValueError
   \<and> simulate_equity 100 ev_tie shuf_id () [Card ACE SPADES, Card KING SPADES] [] 0
        = Inl ValueError
   \<and> simulate_equity 100 ev_tie shuf_id () [Card ACE SPADES, Card KING SPADES]
        [Card TWO CLUBS, Card ACE SPADES, Card FOUR CLUBS] 1 = Inl ValueError
   \<and> simulate_equity 100 ev_tie shuf_id () [Card ACE SPADES, Card KING SPADES] [] 23
        = Inl ValueError"
proof -
  have deck: "length (filter (\<lambda>c. c \<notin> set ([Card ACE SPADES, Card KING SPADES] @ [])) full_deck)
      = 50"
    using length_working_deck [of "[Card ACE SPADES, Card KING SPADES] @ []"] by simp
  have a: "simulate_equity 100 ev_tie shuf_id () [Card ACE SPADES] [] 1 = Inl ValueError"
    by (rule simulate_equity_rejects_invalid_input) simp
  have b: "simulate_equity 100 ev_tie shuf_id () [Card ACE SPADES, Card KING SPADES]
        [Card TWO CLUBS, Card THREE CLUBS, Card FOUR CLUBS, Card FIVE CLUBS, Card SIX CLUBS,
         Card SEVEN CLUBS] 1 = Inl ValueError"
    by (rule simulate_equity_rejects_invalid_input) simp
  have c: "simulate_equity 100 ev_tie shuf_id () [Card ACE SPADES, Card KING SPADES] [] 0
        = Inl ValueError"
    by (rule simulate_equity_rejects_invalid_input) simp
  have d: "simulate_equity 100 ev_tie shuf_id () [Card ACE SPADES, Card KING SPADES]
        [Card TWO CLUBS, Card ACE SPADES, Card FOUR CLUBS] 1 = Inl ValueError"
    by (rule simulate_equity_rejects_invalid_input) simp
  have e: "simulate_equity 100 ev_tie shuf_id () [Card ACE SPADES, Card KING SPADES] [] 23
        = Inl ValueError"
    by (rule simulate_equity_rejects_invalid_input) (simp only: deck, simp)
  from a b c d e show ?thesis by (simp only: simp_thms)
qed

section \<open>Failures of the simulator, stacks and labels\<close>

text \<open>The simulator raises nothing but \<open>ValueError\<close>.\<close>

lemma ensure_no_duplicates_error: "ensure_no_duplicates seen cs = Inl e \<Longrightarrow> e = ValueError"
  by (induction cs arbitrary: seen) (auto simp add: Let_def split: if_splits)

lemma evaluate_hand_error: "evaluate_hand ev hole brd = Inl e \<Longrightarrow> e = ValueError"
  by (auto simp add: evaluate_hand_def split: if_splits sum.splits dest: ensure_no_duplicates_error)

lemma deal_opponents_error: "deal_opponents ev sb k deck = Inl e \<Longrightarrow> e = ValueError"
  by (induction k arbitrary: deck)
     (auto split: if_splits sum.splits dest: evaluate_hand_error)

lemma py_min_error: "py_min xs = Inl e \<Longrightarrow> e = ValueError"
  by (auto simp add: py_min_def split: list.splits)

lemma run_trial_error: "run_trial ev hero brd n deck = Inl e \<Longrightarrow> e = ValueError"
  unfolding run_trial_def Let_def
  by (auto split: if_splits sum.splits
      dest: evaluate_hand_error deal_opponents_error py_min_error)

lemma run_trials_error:
  "run_trials ev shuf hero brd n base k g (w, t) = Inl e \<Longrightarrow> e = ValueError"
  by (induction k arbitrary: g w t)
     (auto split: prod.splits sum.splits dest: run_trial_error)

lemma simulate_setup_error: "simulate_setup hero brd n = Inl e \<Longrightarrow> e = ValueError"
  by (simp add: simulate_setup_cases split: if_splits del: distinct_append set_append)

lemma simulate_equity_error:
  "simulate_equity num_simulations ev shuf g hero brd n = Inl e \<Longrightarrow> e = ValueError"
  unfolding simulate_equity_def simulate_tally_def
  by (auto split: sum.splits prod.splits dest: simulate_setup_error run_trials_error)

text \<open>The engine's estimate with the simulator of this file: its value, or 0 when it fails.\<close>

lemma estimate_equity_simulate:
  "estimate_equity (simulate_equity num_simulations ev shuf g) gs =
     Inr (case simulate_equity num_simulations ev shuf g (hole_cards gs) (board gs)
                 (max 1 (active_opponents gs)) of Inr x \<Rightarrow> x | Inl _ \<Rightarrow> 0)"
  unfolding estimate_equity_def
  by (auto split: sum.splits error.splits dest: simulate_equity_error)

lemma fold_min_le: "fold min xs (x::real) \<le> x"
proof (induction xs arbitrary: x)
  case Nil
  show ?case by simp
next
  case (Cons a xs)
  have "fold min xs (min a x) \<le> min a x" by (rule Cons.IH)
  also have "\<dots> \<le> x" by simp
  finally show ?case by simp
qed

lemma fold_min_ge: "(\<forall>y \<in> set xs. (b::real) \<le> y) \<Longrightarrow> b \<le> x \<Longrightarrow> b \<le> fold min xs x"
  by (induction xs arbitrary: x) auto

lemma effective_stack_le: "effective_stack gs \<le> your_stack gs"
  by (simp add: effective_stack_def fold_min_le)

lemma effective_stack_ge:
  "valid_game_state gs \<Longrightarrow> 0 \<le> effective_stack gs"
  using valid_game_stateD(6,7) [of gs]
  by (simp add: effective_stack_def fold_min_ge)

lemma short_stack_adjustment_ok:
  assumes "valid_game_state gs" "0 \<le> amt"
  shows "0 \<le> amount (short_stack_adjustment gs act amt rs)"
    "amount (short_stack_adjustment gs act amt rs) \<le> your_stack gs"
    "rs \<noteq> [] \<Longrightarrow> reasoning (short_stack_adjustment gs act amt rs) \<noteq> []"
  using effective_stack_le [of gs] effective_stack_ge [OF assms(1)] valid_game_stateD(6) [OF assms(1)]
    assms(2)
  by (auto simp add: short_stack_adjustment_def Let_def)

lemma strip_id:
  assumes "s \<noteq> []" "\<not> py_isspace (hd s)" "\<not> py_isspace (last s)"
  shows "strip s = s"
proof -
  have 1: "dropWhile py_isspace s = s"
    using assms(1,2) by (cases s) simp_all
  have 2: "dropWhile py_isspace (rev s) = rev s"
    using assms(1,3) by (cases "rev s") (simp_all add: hd_rev [symmetric])
  show ?thesis by (simp add: strip_def 1 2)
qed

lemma rank_short_name_no_space: "\<exists>ch. rank_short_name r = [ch] \<and> \<not> py_isspace ch"
  by (cases r) (simp_all add: py_isspace_def)

lemma strip_combo_label: "strip (combo_label c1 c2) = combo_label c1 c2"
proof -
  obtain a where a: "rank_short_name (rank c1) = [a]" "\<not> py_isspace a"
    using rank_short_name_no_space by blast
  obtain b where b: "rank_short_name (rank c2) = [b]" "\<not> py_isspace b"
    using rank_short_name_no_space by blast
  have so: "\<not> py_isspace CHR ''s''" "\<not> py_isspace CHR ''o''"
    by (simp_all add: py_isspace_def)
  show ?thesis
    by (rule strip_id) (auto simp add: combo_label_def Let_def a b so)
qed

lemma length_combo_label: "length (combo_label c1 c2) = 2 \<or> length (combo_label c1 c2) = 3"
  by (auto simp add: combo_label_def Let_def length_rank_short_name)

lemma should_open_combo_label: "\<exists>b. should_open (combo_label c1 c2) p = Inr b"
  using length_combo_label [of c1 c2] OPENING_RANGES_ok [of p]
  by (auto simp add: should_open_def normalize_combo_literal_def strip_combo_label Let_def
      simp del: OPENING_RANGES.simps)

lemma calculate_implied_odds_valid:
  assumes "valid_game_state gs"
  shows "\<exists>x. calculate_implied_odds gs (pot_size gs * 0.5) = Inr x"
  using valid_game_stateD(4,5) [OF assms]
  by (auto simp add: calculate_implied_odds_def Let_def max_def not_less
      intro: add_nonneg_pos add_nonneg_nonneg)

section \<open>The branches of the decision engine on a valid state\<close>




lemma recommend_preflop_unopened:
  assumes "valid_game_state gs" "hole_cards gs = [c1, c2]" "bet_to_call gs = 0"
  shows "\<exists>opens. should_open (combo_label c1 c2) (your_position gs) = Inr opens
     \<and> recommend_preflop sim gs =
        Inr (if opens
             then DecisionResult RAISE (suggest_open_raise gs)
                    [N_hand (combo_label c1 c2), N_position (your_position gs), N_in_opening_range]
             else DecisionResult FOLD 0
                    [N_hand (combo_label c1 c2), N_position (your_position gs),
                     N_outside_opening_range])"
proof -
  obtain opens where o: "should_open (combo_label c1 c2) (your_position gs) = Inr opens"
    using should_open_combo_label by blast
  show ?thesis
    by (rule exI [of _ opens])
       (simp add: recommend_preflop_def assms(2,3) normalize_hand_card_str o Let_def)
qed

lemma recommend_preflop_facing:
  assumes "valid_game_state gs" "hole_cards gs = [c1, c2]" "bet_to_call gs > 0"
  shows "recommend_preflop sim gs =
     (if upper (combo_label c1 c2) \<in> PREMIUM_HANDS then
        Inr (short_stack_adjustment gs RAISE (suggest_3bet_size gs)
               [N_hand (combo_label c1 c2), N_position (your_position gs),
                N_pot_odds (pot_odds gs), N_premium])
      else
        (case estimate_equity sim gs of
           Inl e \<Rightarrow> Inl e
         | Inr equity \<Rightarrow>
             preflop_facing_bet gs (upper (combo_label c1 c2)) (pot_odds gs) equity
               [N_hand (combo_label c1 c2), N_position (your_position gs),
                N_pot_odds (pot_odds gs)]))"
  using assms(3)
  by (simp add: recommend_preflop_def assms(2) normalize_hand_card_str
      calculate_pot_odds_valid [OF assms(1)] Let_def split: sum.splits)

lemma recommend_postflop_valid:
  assumes "valid_game_state gs"
  shows "recommend_postflop sim gs =
     (case estimate_equity sim gs of
        Inl e \<Rightarrow> Inl e
      | Inr equity \<Rightarrow>
          Inr (postflop_decide gs equity (pot_odds gs) (multiway_adjustment (active_opponents gs))
                 ((if length (board gs) < 3 \<and> street gs \<noteq> PREFLOP then [N_board_incomplete] else [])
                  @ [N_equity equity, N_current_pot_odds (pot_odds gs),
                     N_multiway (multiway_adjustment (active_opponents gs))])))"
proof (cases "bet_to_call gs > 0")
  case True
  then show ?thesis
    by (simp add: recommend_postflop_def calculate_pot_odds_valid [OF assms] Let_def
        split: sum.splits)
next
  case False
  then have "pot_odds gs = 0" by (simp add: pot_odds_def)
  with False show ?thesis
    by (simp add: recommend_postflop_def Let_def split: sum.splits)
qed

text \<open>Sizes are never negative on a valid state.\<close>

lemma suggest_nonneg:
  assumes "valid_game_state gs"
  shows "0 \<le> suggest_open_raise gs" "0 \<le> suggest_3bet_size gs" "0 \<le> suggest_value_bet gs"
    "0 \<le> suggest_small_bet gs" "0 \<le> suggest_raise_size gs"
    "0 \<le> min (bet_to_call gs) (your_stack gs)"
    "suggest_open_raise gs \<le> your_stack gs"
  using valid_game_stateD(4,5,6) [OF assms]
  by (auto simp add: suggest_open_raise_def suggest_3bet_size_def suggest_value_bet_def
      suggest_small_bet_def suggest_raise_size_def infer_big_blind_def Let_def max_def min_def)

lemma ok_short_stack_adjustment:
  assumes "valid_game_state gs" "0 \<le> amt" "rs \<noteq> []"
  shows "ok_result gs (short_stack_adjustment gs act amt rs)"
  using short_stack_adjustment_ok [OF assms(1,2)] assms(3) by (simp add: ok_result_def)

lemma ok_fold_check:
  assumes "valid_game_state gs" "rs \<noteq> []"
  shows "ok_result gs (DecisionResult act 0 rs)"
  using valid_game_stateD(6) [OF assms(1)] assms(2) by (simp add: ok_result_def)

lemma postflop_decide_ok:
  assumes "valid_game_state gs" "rs \<noteq> []"
  shows "ok_result gs (postflop_decide gs e po mw rs)"
  using assms(2) valid_game_stateD(5,6) [OF assms(1)]
  by (simp add: postflop_decide_def Let_def ok_short_stack_adjustment [OF assms(1)]
      ok_fold_check [OF assms(1)] suggest_nonneg [OF assms(1)])

lemma preflop_facing_bet_ok:
  assumes "valid_game_state gs" "rs \<noteq> []"
  shows "\<exists>r. preflop_facing_bet gs c po e rs = Inr r \<and> ok_result gs r"
proof -
  obtain io where io: "calculate_implied_odds gs (pot_size gs * 0.5) = Inr io"
    using calculate_implied_odds_valid [OF assms(1)] by blast
  show ?thesis
    using assms(2) io valid_game_stateD(5,6) [OF assms(1)]
    by (simp add: preflop_facing_bet_def Let_def ok_short_stack_adjustment [OF assms(1)]
        ok_fold_check [OF assms(1)] suggest_nonneg [OF assms(1)])
qed

lemma two_cards: "length xs = 2 \<Longrightarrow> \<exists>c1 c2. xs = [c1, c2]"
  by (cases xs; cases "tl xs") auto

lemma recommend_preflop_ok:
  assumes "valid_game_state gs" "length (hole_cards gs) = 2" "estimate_equity sim gs = Inr e"
  shows "\<exists>r. recommend_preflop sim gs = Inr r \<and> ok_result gs r"
proof -
  obtain c1 c2 where h: "hole_cards gs = [c1, c2]"
    using two_cards [OF assms(2)] by blast
  show ?thesis
  proof (cases "bet_to_call gs = 0")
    case True
    obtain opens where "recommend_preflop sim gs =
        Inr (if opens
             then DecisionResult RAISE (suggest_open_raise gs)
                    [N_hand (combo_label c1 c2), N_position (your_position gs), N_in_opening_range]
             else DecisionResult FOLD 0
                    [N_hand (combo_label c1 c2), N_position (your_position gs),
                     N_outside_opening_range])"
      using recommend_preflop_unopened [OF assms(1) h True] by blast
    then show ?thesis
      using suggest_nonneg(1,7) [OF assms(1)] valid_game_stateD(6) [OF assms(1)]
      by (simp add: ok_result_def)
  next
    case False
    then have pos: "bet_to_call gs > 0" using valid_game_stateD(5) [OF assms(1)] by simp
    show ?thesis
      using preflop_facing_bet_ok [OF assms(1), of "[N_hand (combo_label c1 c2), N_position (your_position gs),
                N_pot_odds (pot_odds gs)]" "upper (combo_label c1 c2)" "pot_odds gs" e]
      by (simp add: recommend_preflop_facing [OF assms(1) h pos] assms(3)
          ok_short_stack_adjustment [OF assms(1)] suggest_nonneg [OF assms(1)])
  qed
qed

lemma recommend_postflop_ok:
  assumes "valid_game_state gs" "estimate_equity sim gs = Inr e"
  shows "\<exists>r. recommend_postflop sim gs = Inr r \<and> ok_result gs r"
  by (simp add: recommend_postflop_valid [OF assms(1)] assms(2) postflop_decide_ok [OF assms(1)])

section \<open>The example inputs\<close>

lemma ex_valid: "valid_game_state ex_short_fold" "valid_game_state ex_short_open"
  "valid_game_state ex_short_premium" "valid_game_state ex_short_river"
  "valid_game_state ex_crowded" "valid_game_state ex_one_card"
  "valid_game_state ex_deep_river" "valid_game_state ex_pot_odds"
  "valid_game_state ex_short_crowded"
  by (simp_all add: valid_game_state_iff ex_short_fold_def ex_short_open_def
      ex_short_premium_def ex_short_river_def ex_deep_river_def ex_crowded_def ex_one_card_def
      ex_pot_odds_def ex_short_crowded_def)

text \<open>With 23 opponents the deck is too small and the simulator raises.\<close>

lemma ex_crowded_simulator_fails:
  "simulate_equity 2 ev_tie shuf_id () (hole_cards ex_crowded) (board ex_crowded)
     (max 1 (active_opponents ex_crowded)) = Inl ValueError"
  by code_simp

section \<open>The recommendation\<close>

text \<open>
  Claim C8. For every valid game state with exactly two hole cards, \<open>recommend_action\<close>
  of an engine with the simulator of this file (any number of trials, evaluator and
  random source) returns a triple: its action is one of the six action kinds, its amount
  is not negative and not above the hero's stack, and its reasoning has at least one
  entry.
\<close>

theorem recommendation_well_formed:
  assumes "valid_game_state gs" "length (hole_cards gs) = 2"
  shows "\<exists>act amt rs.
       recommend_action (simulate_equity num_simulations ev shuf g) gs = Inr (act, amt, rs)
     \<and> act \<in> {FOLD, CHECK, CALL, BET, RAISE, ALL_IN}
     \<and> 0 \<le> amt \<and> amt \<le> your_stack gs \<and> 1 \<le> length rs"
proof -
  let ?sim = "simulate_equity num_simulations ev shuf g"
  obtain e where e: "estimate_equity ?sim gs = Inr e"
    using estimate_equity_simulate [of num_simulations ev shuf g gs] by blast
  obtain r where r: "(if street gs = PREFLOP then recommend_preflop ?sim gs
               else recommend_postflop ?sim gs) = Inr r" "ok_result gs r"
    using recommend_preflop_ok [OF assms e] recommend_postflop_ok [OF assms(1) e]
    by (cases "street gs = PREFLOP") auto
  have act: "action r \<in> {FOLD, CHECK, CALL, BET, RAISE, ALL_IN}"
    by (cases "action r") simp_all
  have len: "1 \<le> length (reasoning r)"
    using r(2) by (cases "reasoning r") (simp_all add: ok_result_def)
  show ?thesis
    using r act len by (simp add: recommend_action_def assms(2) ok_result_def)
qed

theorem recommendation_well_formed_witness:
  "\<exists>act amt rs.
       recommend_action (simulate_equity 2 ev_quads shuf_id ()) ex_deep_river = Inr (act, amt, rs)
     \<and> act = RAISE \<and> amt = 80 \<and> 0 \<le> amt \<and> amt \<le> your_stack ex_deep_river \<and> 1 \<le> length rs"
proof -
  have l: "length (hole_cards ex_deep_river) = 2"
    by (simp add: ex_deep_river_def ex_short_river_def)
  have v: "recommend_action (simulate_equity 2 ev_quads shuf_id ()) ex_deep_river
     = Inr (RAISE, 80, [N_equity 1, N_current_pot_odds (1 / 6), N_multiway 0,
          N_min_continue (23 / 120), N_dominant_raise])"
    by code_simp
  show ?thesis
    using recommendation_well_formed [OF ex_valid(7) l, of 2 ev_quads shuf_id "()"]
    by (simp add: v)
qed

text \<open>
  Claim C4. A game state whose hole cards are not exactly two makes \<open>recommend_action\<close>
  raise \<open>ValueError\<close>. On a valid game state with exactly two hole cards, when the
  simulator raises its \<open>ValueError\<close> the engine's estimate is the equity 0 and
  \<open>recommend_action\<close> returns a recommendation.
\<close>

theorem recommend_action_fatal_and_recoverable:
  "(length (hole_cards gs) \<noteq> 2 \<longrightarrow> recommend_action sim gs = Inl ValueError)
   \<and> (valid_game_state gs \<and> length (hole_cards gs) = 2
        \<and> sim (hole_cards gs) (board gs) (max 1 (active_opponents gs)) = Inl ValueError
      \<longrightarrow> estimate_equity sim gs = Inr 0
          \<and> (\<exists>act amt rs. recommend_action sim gs = Inr (act, amt, rs)))"
proof (intro conjI impI)
  assume "length (hole_cards gs) \<noteq> 2"
  then show "recommend_action sim gs = Inl ValueError"
    by (simp add: recommend_action_def)
next
  assume a: "valid_game_state gs \<and> length (hole_cards gs) = 2
        \<and> sim (hole_cards gs) (board gs) (max 1 (active_opponents gs)) = Inl ValueError"
  then show e: "estimate_equity sim gs = Inr 0"
    by (simp add: estimate_equity_def)
  obtain r where "(if street gs = PREFLOP then recommend_preflop sim gs
               else recommend_postflop sim gs) = Inr r"
    using a recommend_preflop_ok [of gs sim 0] recommend_postflop_ok [of gs sim 0] e
    by (cases "street gs = PREFLOP") auto
  then show "\<exists>act amt rs. recommend_action sim gs = Inr (act, amt, rs)"
    using a by (simp add: recommend_action_def)
qed

theorem recommend_action_fatal_and_recoverable_witness:
  "recommend_action (simulate_equity 2 ev_tie shuf_id ()) ex_one_card = Inl ValueError
   \<and> estimate_equity (simulate_equity 2 ev_tie shuf_id ()) ex_crowded = Inr 0
   \<and> (\<exists>act amt rs. recommend_action (simulate_equity 2 ev_tie shuf_id ()) ex_crowded
         = Inr (act, amt, rs))"
proof -
  have one: "length (hole_cards ex_one_card) \<noteq> 2"
    by (simp add: ex_one_card_def ex_pot_odds_def)
  have two: "length (hole_cards ex_crowded) = 2"
    by (simp add: ex_crowded_def)
  show ?thesis
    using recommend_action_fatal_and_recoverable
            [of ex_one_card "simulate_equity 2 ev_tie shuf_id ()"]
          recommend_action_fatal_and_recoverable
            [of ex_crowded "simulate_equity 2 ev_tie shuf_id ()"]
          one two ex_valid(5) ex_crowded_simulator_fails
    by simp
qed

text \<open>
  Claim C10. On a valid game state with two hole cards, on a street after the flop and
  with a bet to call, the required equity \<open>pot_odds * 1.15 + multiway_adjustment\<close> is
  positive; when the simulator raises, the estimate is 0 and \<open>recommend_action\<close>
  returns fold with amount 0.
\<close>

theorem simulator_failure_folds_postflop:
  assumes "valid_game_state gs" "length (hole_cards gs) = 2"
    and "street gs \<noteq> PREFLOP" "bet_to_call gs > 0"
    and "sim (hole_cards gs) (board gs) (max 1 (active_opponents gs)) = Inl ValueError"
  shows "0 < pot_odds gs * 1.15 + multiway_adjustment (active_opponents gs)
    \<and> estimate_equity sim gs = Inr 0
    \<and> (\<exists>rs. recommend_action sim gs = Inr (FOLD, 0, rs))"
proof -
  have po: "0 < pot_odds gs"
    using valid_game_stateD(4) [OF assms(1)] assms(4)
    by (simp add: pot_odds_valid [OF assms(1)] add_nonneg_pos)
  have mw: "0 \<le> multiway_adjustment (active_opponents gs)"
    by (simp add: multiway_adjustment_def)
  have req: "0 < pot_odds gs * 1.15 + multiway_adjustment (active_opponents gs)"
    using po mw by (simp add: add_pos_nonneg)
  have e: "estimate_equity sim gs = Inr 0"
    using assms(5) by (simp add: estimate_equity_def)
  have "\<exists>rs. recommend_action sim gs = Inr (FOLD, 0, rs)"
    using assms(3,4) req
    by (simp add: recommend_action_def assms(2) recommend_postflop_valid [OF assms(1)] e
        postflop_decide_def Let_def not_le)
  with req e show ?thesis by simp
qed

theorem simulator_failure_folds_postflop_witness:
  "simulate_equity 2 ev_tie shuf_id () (hole_cards ex_crowded) (board ex_crowded)
     (max 1 (active_opponents ex_crowded)) = Inl ValueError
   \<and> (\<exists>rs. recommend_action (simulate_equity 2 ev_tie shuf_id ()) ex_crowded
          = Inr (FOLD, 0, rs))"
proof -
  have l: "length (hole_cards ex_crowded) = 2" "street ex_crowded \<noteq> PREFLOP"
    "bet_to_call ex_crowded > 0"
    by (simp_all add: ex_crowded_def)
  show ?thesis
    using simulator_failure_folds_postflop
            [of ex_crowded "simulate_equity 2 ev_tie shuf_id ()"]
          ex_valid(5) l ex_crowded_simulator_fails
    by simp
qed

section \<open>Facing a bet after the flop\<close>




section \<open>The short-stack override\<close>




section \<open>The trials of the simulator\<close>

lemma ensure_no_duplicates_distinct:
  "distinct cs \<Longrightarrow> card_str ` set cs \<inter> seen = {} \<Longrightarrow> ensure_no_duplicates seen cs = Inr ()"
proof (induction cs arbitrary: seen)
  case Nil
  show ?case by simp
next
  case (Cons c cs)
  have notin: "card_str c \<notin> seen" using Cons.prems(2) by auto
  have "card_str c \<notin> card_str ` set cs"
    using Cons.prems(1) card_str_inj by auto
  then have "card_str ` set cs \<inter> insert (card_str c) seen = {}"
    using Cons.prems(2) by auto
  then have "ensure_no_duplicates (insert (card_str c) seen) cs = Inr ()"
    using Cons.IH Cons.prems(1) by simp
  then show ?case using notin by (simp add: Let_def)
qed

lemma evaluate_hand_ok:
  assumes "length hole = 2" "length brd \<le> 5" "distinct (hole @ brd)"
  shows "evaluate_hand ev hole brd = Inr (ev brd hole)"
  using assms(1,2) ensure_no_duplicates_distinct [OF assms(3), of "{}"]
  by (simp add: evaluate_hand_def del: distinct_append)

lemma deal_opponents_ok:
  assumes "length sb \<le> 5" "distinct (deck @ sb)" "2 * m \<le> length deck"
  shows "\<exists>ranks. deal_opponents ev sb m deck = Inr ranks \<and> length ranks = m"
  using assms
proof (induction m arbitrary: deck)
  case 0
  show ?case by simp
next
  case (Suc m)
  have len: "\<not> length deck < 2" using Suc.prems(3) by simp
  have d2: "distinct (take 2 deck @ sb)"
    using Suc.prems(2) by (auto simp add: distinct_take dest: in_set_takeD)
  have l2: "length (take 2 deck) = 2" using Suc.prems(3) by simp
  have ev: "evaluate_hand ev (take 2 deck) sb = Inr (ev sb (take 2 deck))"
    by (rule evaluate_hand_ok [OF l2 Suc.prems(1) d2])
  have dd: "distinct (drop 2 deck @ sb)"
    using Suc.prems(2) by (auto simp add: distinct_drop dest: in_set_dropD)
  have ld: "2 * m \<le> length (drop 2 deck)" using Suc.prems(3) by simp
  obtain ranks where r: "deal_opponents ev sb m (drop 2 deck) = Inr ranks" "length ranks = m"
    using Suc.IH [OF Suc.prems(1) dd ld] by blast
  show ?case using len ev r by simp
qed

text \<open>One trial on a deck that is distinct and disjoint from the known cards.\<close>

lemma run_trial_ok:
  assumes "length hero = 2" "length brd \<le> 5" "1 \<le> n"
    and "distinct (hero @ brd @ deck)"
    and "(5 - int (length brd)) + 2 * n \<le> int (length deck)"
  shows "run_trial ev hero brd n deck \<in> {Inr (1, 0), Inr (0, 1), Inr (0, 0)}"
proof -
  define k where "k = 5 - length brd"
  define sb where "sb = brd @ take k deck"
  define deck1 where "deck1 = drop k deck"
  have klen: "k \<le> length deck" using assms(2,3,5) by (simp add: k_def)
  have sb_len: "length sb = 5" using assms(2) klen by (simp add: sb_def k_def)
  have sb_eq: "(if 5 - int (length brd) > 0 then brd @ take (nat (5 - int (length brd))) deck else brd) = sb"
    using assms(2) by (auto simp add: sb_def k_def nat_diff_distrib)
  have d1_eq: "(if 5 - int (length brd) > 0 then drop (nat (5 - int (length brd))) deck else deck) = deck1"
    using assms(2) by (auto simp add: deck1_def k_def nat_diff_distrib)
  have split: "deck = take k deck @ deck1" by (simp add: deck1_def)
  have dall: "distinct (hero @ brd @ take k deck @ deck1)"
    using assms(4) split by simp
  have dh: "distinct (hero @ sb)" using dall by (auto simp add: sb_def)
  have dd: "distinct (deck1 @ sb)" using dall by (auto simp add: sb_def)
  have ld: "2 * nat n \<le> length deck1"
    using assms(2,3,5) by (simp add: deck1_def k_def)
  have hero: "evaluate_hand ev hero sb = Inr (ev sb hero)"
    using evaluate_hand_ok [OF assms(1) _ dh] sb_len by simp
  obtain ranks where r: "deal_opponents ev sb (nat n) deck1 = Inr ranks" "length ranks = nat n"
    using deal_opponents_ok [OF _ dd ld] sb_len by fastforce
  have "ranks \<noteq> []" using r(2) assms(3) by auto
  then obtain best where b: "py_min ranks = Inr best"
    by (cases ranks) (simp_all add: py_min_def)
  show ?thesis
    unfolding run_trial_def Let_def sb_eq d1_eq
    by (simp add: hero r(1) b)
qed

lemma run_trials_ok:
  assumes "\<And>g. run_trial ev hero brd n (fst (shuf g base)) \<in> {Inr (1, 0), Inr (0, 1), Inr (0, 0)}"
  shows "\<exists>w' t'. run_trials ev shuf hero brd n base k g (w, t) = Inr (w', t')
     \<and> w \<le> w' \<and> t \<le> t' \<and> w' + t' \<le> w + t + int k"
proof (induction k arbitrary: g w t)
  case 0
  show ?case by simp
next
  case (Suc k)
  obtain deck g' where s: "shuf g base = (deck, g')" by (cases "shuf g base")
  have "run_trial ev hero brd n deck \<in> {Inr (1, 0), Inr (0, 1), Inr (0, 0)}"
    using assms [of g] s by simp
  then obtain dw dt where t: "run_trial ev hero brd n deck = Inr (dw, dt)"
    "0 \<le> dw" "0 \<le> dt" "dw + dt \<le> 1"
    by auto
  obtain w' t' where r: "run_trials ev shuf hero brd n base k g' (w + dw, t + dt) = Inr (w', t')"
    "w + dw \<le> w'" "t + dt \<le> t'" "w' + t' \<le> w + dw + (t + dt) + int k"
    using Suc.IH [of g' "w + dw" "t + dt"] by blast
  show ?case
    using s t r by simp
qed

lemma working_deck_distinct:
  assumes "distinct (hero @ brd)"
  shows "distinct (hero @ brd @ filter (\<lambda>c. c \<notin> set (hero @ brd)) full_deck)"
  using assms distinct_full_deck by auto

text \<open>
  Claim C2. Let the random source permute the deck it is given. For two hero cards, at
  most five board cards, all distinct, at least one opponent, a working deck that holds
  \<open>(5 - board size) + 2 * num_opponents\<close> cards and a positive number of trials, the
  trial loop ends with counters \<open>wins\<close> and \<open>ties\<close>, \<open>simulate_equity\<close> returns
  \<open>(wins + 0.5 * ties) / num_simulations\<close>, this value lies between 0 and 1, and
  \<open>wins\<close>, \<open>ties\<close> and \<open>losses = num_simulations - wins - ties\<close> are not negative
  and add up to \<open>num_simulations\<close>.
\<close>

theorem simulate_equity_tally:
  assumes "\<forall>g deck. mset (fst (shuf g deck)) = mset deck"
    and "length hero = 2" "length brd \<le> 5" "distinct (hero @ brd)" "1 \<le> n"
    and "(5 - int (length brd)) + 2 * n
           \<le> int (length (filter (\<lambda>c. c \<notin> set (hero @ brd)) full_deck))"
    and "0 < num_simulations"
  shows "\<exists>wins ties.
        simulate_tally num_simulations ev shuf g hero brd n = Inr (wins, ties)
      \<and> simulate_equity num_simulations ev shuf g hero brd n
          = Inr ((real_of_int wins + 0.5 * real_of_int ties) / real_of_int num_simulations)
      \<and> 0 \<le> wins \<and> 0 \<le> ties \<and> 0 \<le> num_simulations - wins - ties
      \<and> wins + ties + (num_simulations - wins - ties) = num_simulations
      \<and> 0 \<le> (real_of_int wins + 0.5 * real_of_int ties) / real_of_int num_simulations
      \<and> (real_of_int wins + 0.5 * real_of_int ties) / real_of_int num_simulations \<le> 1"
proof -
  define base where "base = filter (\<lambda>c. c \<notin> set (hero @ brd)) full_deck"
  have base_ok: "simulate_setup hero brd n = Inr base"
    using assms(2-6) by (simp add: simulate_setup_cases base_def del: distinct_append set_append)
  have trial: "run_trial ev hero brd n (fst (shuf g' base)) \<in> {Inr (1, 0), Inr (0, 1), Inr (0, 0)}"
    for g'
  proof -
    have m: "mset (fst (shuf g' base)) = mset base" using assms(1) by blast
    have d: "distinct (hero @ brd @ fst (shuf g' base))"
      using working_deck_distinct [OF assms(4)] mset_eq_setD [OF m] mset_eq_imp_distinct_iff [OF m]
      by (simp add: base_def)
    have l: "length (fst (shuf g' base)) = length base"
      using mset_eq_length [OF m] .
    show ?thesis
      by (rule run_trial_ok [OF assms(2,3,5) d]) (use assms(6) l in \<open>simp add: base_def\<close>)
  qed
  obtain wins ties where r:
    "run_trials ev shuf hero brd n base (nat num_simulations) g (0, 0) = Inr (wins, ties)"
    "0 \<le> wins" "0 \<le> ties" "wins + ties \<le> 0 + 0 + int (nat num_simulations)"
    using run_trials_ok [of ev hero brd n shuf base "nat num_simulations" g 0 0, OF trial]
    by blast
  have le: "wins + ties \<le> num_simulations" using r(4) assms(7) by simp
  have tally: "simulate_tally num_simulations ev shuf g hero brd n = Inr (wins, ties)"
    by (simp add: simulate_tally_def base_ok r(1))
  have N: "0 < real_of_int num_simulations" using assms(7) by simp
  have num0: "0 \<le> real_of_int wins + 0.5 * real_of_int ties" using r(2,3) by simp
  have "real_of_int wins + real_of_int ties \<le> real_of_int num_simulations"
    using le by (metis of_int_add of_int_le_iff)
  then have num1: "real_of_int wins + 0.5 * real_of_int ties \<le> real_of_int num_simulations"
    using r(3) by simp
  have lo: "0 \<le> (real_of_int wins + 0.5 * real_of_int ties) / real_of_int num_simulations"
    using num0 N by simp
  have hi: "(real_of_int wins + 0.5 * real_of_int ties) / real_of_int num_simulations \<le> 1"
    using num1 N by (simp add: divide_le_eq)
  show ?thesis
    using tally r(2,3) le lo hi
    by (intro exI [of _ wins] exI [of _ ties]) (simp add: simulate_equity_def)
qed

theorem simulate_equity_tally_witness:
  "(\<exists>wins ties.
        simulate_tally 3 ev_tie shuf_id () [Card ACE SPADES, Card KING SPADES] [] 2
          = Inr (wins, ties)
      \<and> simulate_equity 3 ev_tie shuf_id () [Card ACE SPADES, Card KING SPADES] [] 2
          = Inr ((real_of_int wins + 0.5 * real_of_int ties) / real_of_int 3)
      \<and> 0 \<le> wins \<and> 0 \<le> ties \<and> 0 \<le> 3 - wins - ties)
   \<and> simulate_tally 3 ev_tie shuf_id () [Card ACE SPADES, Card KING SPADES] [] 2 = Inr (0, 3)
   \<and> simulate_equity 3 ev_tie shuf_id () [Card ACE SPADES, Card KING SPADES] [] 2
        = Inr (1 / 2)"
proof -
  have perm: "\<forall>g deck. mset (fst (shuf_id g deck)) = mset deck"
    by (simp add: shuf_id_def)
  have deck: "length (filter (\<lambda>c. c \<notin> set ([Card ACE SPADES, Card KING SPADES] @ [])) full_deck)
      = 50"
    using length_working_deck [of "[Card ACE SPADES, Card KING SPADES] @ []"] by simp
  have enough: "(5 - int (length ([] :: card list))) + 2 * 2
      \<le> int (length (filter (\<lambda>c. c \<notin> set ([Card ACE SPADES, Card KING SPADES] @ []))
                        full_deck))"
    by (simp only: deck)
  have t: "simulate_tally 3 ev_tie shuf_id () [Card ACE SPADES, Card KING SPADES] [] 2
      = Inr (0, 3)"
    by code_simp
  have e: "simulate_equity 3 ev_tie shuf_id () [Card ACE SPADES, Card KING SPADES] [] 2
      = Inr (1 / 2)"
    by code_simp
  have "\<exists>wins ties.
        simulate_tally 3 ev_tie shuf_id () [Card ACE SPADES, Card KING SPADES] [] 2
          = Inr (wins, ties)
      \<and> simulate_equity 3 ev_tie shuf_id () [Card ACE SPADES, Card KING SPADES] [] 2
          = Inr ((real_of_int wins + 0.5 * real_of_int ties) / real_of_int 3)
      \<and> 0 \<le> wins \<and> 0 \<le> ties \<and> 0 \<le> 3 - wins - ties"
    using simulate_equity_tally
            [of shuf_id "[Card ACE SPADES, Card KING SPADES]" "[]" 2 3 ev_tie "()",
             OF perm _ _ _ _ enough]
    by simp blast
  with t e show ?thesis by (simp only: simp_thms)
qed

end
